theory Spec2Isabelle
  imports Main
begin

section \<open>Data model of \<^verbatim>\<open>CSS.h\<close>\<close>

text \<open>
  \<^verbatim>\<open>Parser::TokenType\<close>, \<^verbatim>\<open>Parser::Token\<close> and \<^verbatim>\<open>ParseError\<close> as they are declared.
  \<^verbatim>\<open>PropertyTable\<close> and \<^verbatim>\<open>Stylesheet\<close> are \<^verbatim>\<open>std::unordered_map\<close>s, modelled as maps.
\<close>

datatype TokenType =
  Identifier | Number | String | Colon | Semicolon | BraceOpen | BraceClose
  | HexColor | Unknown | EndOfFile

record Token =
  type :: TokenType
  "value" :: string

record ParseError =
  errMsg :: string
  errLine :: string

type_synonym PropertyTable = "string \<rightharpoonup> string"
type_synonym Stylesheet = "string \<rightharpoonup> PropertyTable"

text \<open>
  The only exception the code can raise is \<^verbatim>\<open>std::out_of_range\<close>, from
  \<^verbatim>\<open>std::vector::at\<close> and \<^verbatim>\<open>std::string::substr\<close>. Every parser function is
  \<^verbatim>\<open>noexcept\<close>, so an exception that reaches one of them ends the process in
  \<^verbatim>\<open>std::terminate\<close>.
\<close>

datatype error = OutOfRange

subsection \<open>\<^verbatim>\<open>size_t\<close> arithmetic\<close>

text \<open>
  Positions are \<^verbatim>\<open>std::size_t\<close>, taken as 64 bits wide. They are modelled as naturals;
  the two subtractions of the source that can go below zero wrap around explicitly.
\<close>

definition SIZE_MAX :: nat where
  "SIZE_MAX = 2 ^ 64 - 1"

definition size_sub :: "nat \<Rightarrow> nat \<Rightarrow> nat" where
  "size_sub a b = (if b \<le> a then a - b else a + 2 ^ 64 - b)"

text \<open>\<^verbatim>\<open>std::vector::at\<close>: bounds-checked access.\<close>

definition at :: "'a list \<Rightarrow> nat \<Rightarrow> error + 'a" where
  "at xs i = (if i < length xs then Inr (xs ! i) else Inl OutOfRange)"

text \<open>\<^verbatim>\<open>std::string::substr(pos, n)\<close>: throws when \<^verbatim>\<open>pos > size()\<close>, otherwise
  returns at most \<^verbatim>\<open>n\<close> characters from \<^verbatim>\<open>pos\<close>.\<close>

definition substr :: "string \<Rightarrow> nat \<Rightarrow> nat \<Rightarrow> error + string" where
  "substr s pos n = (if length s < pos then Inl OutOfRange else Inr (take n (drop pos s)))"

subsection \<open>Character classes\<close>

text \<open>
  \<^verbatim>\<open>std::isspace\<close>, \<^verbatim>\<open>std::isalpha\<close>, \<^verbatim>\<open>std::isdigit\<close> and \<^verbatim>\<open>std::isalnum\<close> in the
  default "C" locale. Bytes outside ASCII belong to no class.
\<close>

definition isspace :: "char \<Rightarrow> bool" where
  "isspace c = (of_char c = (32::nat) \<or> (9 \<le> (of_char c :: nat) \<and> (of_char c :: nat) \<le> 13))"

definition isalpha :: "char \<Rightarrow> bool" where
  "isalpha c = ((65 \<le> (of_char c :: nat) \<and> (of_char c :: nat) \<le> 90)
     \<or> (97 \<le> (of_char c :: nat) \<and> (of_char c :: nat) \<le> 122))"

definition isdigit :: "char \<Rightarrow> bool" where
  "isdigit c = (48 \<le> (of_char c :: nat) \<and> (of_char c :: nat) \<le> 57)"

definition isalnum :: "char \<Rightarrow> bool" where
  "isalnum c = (isalpha c \<or> isdigit c)"

section \<open>The lexer\<close>

text \<open>
  \<^verbatim>\<open>Lexer\<close> holds the immutable \<^verbatim>\<open>input\<close> and the cursor \<^verbatim>\<open>position\<close>. Each lexing
  function takes both and returns the token with the new cursor.
\<close>

definition Lexer_peek :: "string \<Rightarrow> nat \<Rightarrow> nat \<Rightarrow> char" where
  "Lexer_peek input position offset =
     (if position + offset < length input then input ! (position + offset) else CHR 0x00)"

text \<open>The scanning loops
  \<^verbatim>\<open>while (position < input.size() && p(input[position])) position++;\<close>\<close>

function advance_while :: "(char \<Rightarrow> bool) \<Rightarrow> string \<Rightarrow> nat \<Rightarrow> nat" where
  "advance_while p input position =
     (if position < length input \<and> p (input ! position)
      then advance_while p input (Suc position) else position)"
  by pat_completeness auto
termination
  by (relation "measure (\<lambda>(p, input, position). length input - position)") auto

declare advance_while.simps [simp del]

text \<open>The loop that looks for the end of a block comment:
  \<^verbatim>\<open>while (position < input.size() && !(input[position] == '*' && peek() == '/')) position++;\<close>\<close>

function skip_comment :: "string \<Rightarrow> nat \<Rightarrow> nat" where
  "skip_comment input position =
     (if position < length input
         \<and> \<not> (input ! position = CHR ''*'' \<and> Lexer_peek input position 1 = CHR ''/'')
      then skip_comment input (Suc position) else position)"
  by pat_completeness auto
termination
  by (relation "measure (\<lambda>(input, position). length input - position)") auto

declare skip_comment.simps [simp del]

definition lexIdentifier :: "string \<Rightarrow> nat \<Rightarrow> error + (Token \<times> nat)" where
  "lexIdentifier input start =
     (let position = advance_while (\<lambda>c. isalnum c \<or> c = CHR ''-'') input start in
      case substr input start (size_sub position start) of
        Inl e \<Rightarrow> Inl e
      | Inr text \<Rightarrow> Inr (\<lparr>type = Identifier, value = text\<rparr>, position))"

definition lexNumber :: "string \<Rightarrow> nat \<Rightarrow> error + (Token \<times> nat)" where
  "lexNumber input start =
     (let position = advance_while isdigit input start in
      case substr input start (size_sub position start) of
        Inl e \<Rightarrow> Inl e
      | Inr text \<Rightarrow> Inr (\<lparr>type = Number, value = text\<rparr>, position))"

definition lexHexColor :: "string \<Rightarrow> nat \<Rightarrow> error + (Token \<times> nat)" where
  "lexHexColor input position0 =
     (let start = position0 + 1;
          position = advance_while (\<lambda>c. c \<noteq> CHR '';'') input start in
      if size_sub position start \<noteq> 6
      then Inr (\<lparr>type = Unknown, value = ''<InvalidColor>''\<rparr>, position)
      else case substr input start (size_sub position start) of
        Inl e \<Rightarrow> Inl e
      | Inr text \<Rightarrow> Inr (\<lparr>type = HexColor, value = text\<rparr>, position))"

definition lexString :: "string \<Rightarrow> nat \<Rightarrow> error + (Token \<times> nat)" where
  \<open>lexString input position0 =
     (let start = position0 + 1;
          position1 = advance_while (\<lambda>c. c \<noteq> CHR ''"'') input start;
          position = (if position1 < length input then position1 + 1 else position1) in
      case substr input start (size_sub (size_sub position start) 1) of
        Inl e \<Rightarrow> Inl e
      | Inr text \<Rightarrow> Inr (\<lparr>type = String, value = text\<rparr>, position))\<close>

text \<open>Where a scanning loop stops, and that every lexing function moves the cursor forward:
  the main loop of the tokenizer terminates for that reason.\<close>

lemma advance_while_eq:
  "advance_while p input position = position + length (takeWhile p (drop position input))"
proof (induction p input position rule: advance_while.induct)
  case (1 p input position)
  show ?case
  proof (cases "position < length input \<and> p (input ! position)")
    case True
    then have "drop position input = input ! position # drop (Suc position) input"
      by (simp add: Cons_nth_drop_Suc)
    with True 1 show ?thesis
      by (subst advance_while.simps) simp
  next
    case False
    then show ?thesis
      by (subst advance_while.simps) (auto simp: hd_drop_conv_nth takeWhile_eq_Nil_iff)
  qed
qed

lemma advance_while_ge: "position \<le> advance_while p input position"
  by (simp add: advance_while_eq)

lemma advance_while_gt:
  "position < length input \<Longrightarrow> p (input ! position) \<Longrightarrow> position < advance_while p input position"
  by (subst advance_while.simps) (simp add: less_le_trans [OF _ advance_while_ge])

lemma skip_comment_ge: "position \<le> skip_comment input position"
proof (induction input position rule: skip_comment.induct)
  case (1 input position)
  then show ?case
    by (subst skip_comment.simps) (auto simp: Suc_leD)
qed

lemma lexIdentifier_gt:
  assumes "lexIdentifier input position = Inr (tok, position')"
    and "position < length input"
    and "isalpha (input ! position) \<or> input ! position = CHR ''-''"
  shows "position < position'"
proof -
  from assms(3) have "isalnum (input ! position) \<or> input ! position = CHR ''-''"
    by (auto simp: isalnum_def)
  then have "position < advance_while (\<lambda>c. isalnum c \<or> c = CHR ''-'') input position"
    using assms(2) by (intro advance_while_gt) simp_all
  with assms(1) show ?thesis
    by (auto simp: lexIdentifier_def Let_def split: sum.splits)
qed

lemma lexNumber_gt:
  assumes "lexNumber input position = Inr (tok, position')"
    and "position < length input"
    and "isdigit (input ! position)"
  shows "position < position'"
proof -
  have "position < advance_while isdigit input position"
    using assms(2,3) by (rule advance_while_gt)
  with assms(1) show ?thesis
    by (auto simp: lexNumber_def Let_def split: sum.splits)
qed

lemma lexString_gt:
  assumes "lexString input position = Inr (tok, position')"
  shows "position < position'"
proof -
  have "position + 1 \<le> advance_while (\<lambda>c. c \<noteq> CHR 0x22) input (position + 1)"
    by (rule advance_while_ge)
  with assms show ?thesis
    by (auto simp: lexString_def Let_def split: sum.splits if_splits)
qed

lemma lexHexColor_gt:
  assumes "lexHexColor input position = Inr (tok, position')"
  shows "position < position'"
proof -
  have "position + 1 \<le> advance_while (\<lambda>c. c \<noteq> CHR '';'') input (position + 1)"
    by (rule advance_while_ge)
  with assms show ?thesis
    by (auto simp: lexHexColor_def Let_def split: sum.splits if_splits)
qed

text \<open>
  The main loop of \<^verbatim>\<open>Lexer::tokenize\<close>, with the branches in the order of the source.
  Whitespace and block comments produce no token.
\<close>

function tokenize_loop :: "string \<Rightarrow> nat \<Rightarrow> Token list \<Rightarrow> error + Token list" where
  \<open>tokenize_loop input position tokens =
     (if position < length input then
        if isspace (input ! position) then
          tokenize_loop input (advance_while isspace input position) tokens
        else if isalpha (input ! position) \<or> input ! position = CHR ''-'' then
          (case lexIdentifier input position of
             Inl e \<Rightarrow> Inl e
           | Inr (tok, position') \<Rightarrow> tokenize_loop input position' (tokens @ [tok]))
        else if isdigit (input ! position) then
          (case lexNumber input position of
             Inl e \<Rightarrow> Inl e
           | Inr (tok, position') \<Rightarrow> tokenize_loop input position' (tokens @ [tok]))
        else if input ! position = CHR ''"'' then
          (case lexString input position of
             Inl e \<Rightarrow> Inl e
           | Inr (tok, position') \<Rightarrow> tokenize_loop input position' (tokens @ [tok]))
        else if input ! position = CHR '':'' then
          tokenize_loop input (position + 1) (tokens @ [\<lparr>type = Colon, value = '':''\<rparr>])
        else if input ! position = CHR '';'' then
          tokenize_loop input (position + 1) (tokens @ [\<lparr>type = Semicolon, value = '';''\<rparr>])
        else if input ! position = CHR ''{'' then
          tokenize_loop input (position + 1) (tokens @ [\<lparr>type = BraceOpen, value = ''{''\<rparr>])
        else if input ! position = CHR ''}'' then
          tokenize_loop input (position + 1) (tokens @ [\<lparr>type = BraceClose, value = ''}''\<rparr>])
        else if input ! position = CHR ''#'' then
          (case lexHexColor input position of
             Inl e \<Rightarrow> Inl e
           | Inr (tok, position') \<Rightarrow> tokenize_loop input position' (tokens @ [tok]))
        else if input ! position = CHR ''/'' \<and> Lexer_peek input position 1 = CHR ''*'' then
          (let position1 = skip_comment input (position + 2) in
           tokenize_loop input (if position1 < length input then position1 + 2 else position1) tokens)
        else
          tokenize_loop input (position + 1) (tokens @ [\<lparr>type = Unknown, value = [input ! position]\<rparr>])
      else Inr (tokens @ [\<lparr>type = EndOfFile, value = ''''\<rparr>]))\<close>
  by pat_completeness auto
termination
proof (relation "measure (\<lambda>(input, position, tokens). length input - position)", goal_cases)
  case 1
  show ?case by simp
next
  case (2 input position tokens)
  then show ?case
    using advance_while_gt [of position input isspace] by simp
next
  case (3 input position tokens x2 tok position')
  then show ?case
    using lexIdentifier_gt [of input position tok position'] by auto
next
  case (4 input position tokens x2 tok position')
  then show ?case
    using lexNumber_gt [of input position tok position'] by auto
next
  case (5 input position tokens x2 tok position')
  then show ?case
    using lexString_gt [of input position tok position'] by auto
next
  case (10 input position tokens x2 tok position')
  then show ?case
    using lexHexColor_gt [of input position tok position'] by auto
next
  case (11 input position tokens position1)
  then show ?case
    using skip_comment_ge [of "position + 2" input] by (auto split: if_splits)
qed auto

declare tokenize_loop.simps [simp del]

definition tokenize :: "string \<Rightarrow> error + Token list" where
  "tokenize input = tokenize_loop input 0 []"

section \<open>The parser\<close>

text \<open>
  The state of a \<^verbatim>\<open>Parser\<close> object. Of the lexer it owns, only \<^verbatim>\<open>lexer->input\<close> is read
  after construction (by \<^verbatim>\<open>makeError\<close>); it is the field \<open>input\<close>.
\<close>

record Parser =
  input :: string
  tokens :: "Token list"
  stylesheet :: Stylesheet
  position :: nat
  hadError :: bool
  lastError :: ParseError

text \<open>The constructor tokenizes at once and starts at position 0 with no error.\<close>

definition new_Parser :: "string \<Rightarrow> error + Parser" where
  "new_Parser css =
     (case tokenize css of
        Inl e \<Rightarrow> Inl e
      | Inr ts \<Rightarrow> Inr \<lparr>input = css, tokens = ts, stylesheet = Map.empty, position = 0,
                      hadError = False, lastError = \<lparr>errMsg = '''', errLine = ''''\<rparr>\<rparr>)"

definition makeError :: "string \<Rightarrow> Parser \<Rightarrow> Parser" where
  "makeError msg st = st\<lparr>lastError := \<lparr>errMsg = msg, errLine = input st\<rparr>, hadError := True\<rparr>"

text \<open>\<^verbatim>\<open>isAtEnd\<close>: the \<^verbatim>\<open>or\<close> short-circuits, so \<^verbatim>\<open>tokens.at(position)\<close> is in range
  whenever it is evaluated.\<close>

definition isAtEnd :: "Parser \<Rightarrow> bool" where
  "isAtEnd st =
     (length (tokens st) \<le> position st \<or> type (tokens st ! position st) = EndOfFile)"

text \<open>\<^verbatim>\<open>advance\<close>: \<^verbatim>\<open>if (!isAtEnd()) position++; return tokens.at(position - 1);\<close>
  where \<^verbatim>\<open>position - 1\<close> wraps around at position 0.\<close>

definition advance :: "Parser \<Rightarrow> error + (Token \<times> Parser)" where
  "advance st =
     (let st' = (if isAtEnd st then st else st\<lparr>position := position st + 1\<rparr>) in
      case at (tokens st') (size_sub (position st') 1) of
        Inl e \<Rightarrow> Inl e
      | Inr tok \<Rightarrow> Inr (tok, st'))"

definition peek :: "Parser \<Rightarrow> error + Token" where
  "peek st = at (tokens st) (position st)"

text \<open>\<^verbatim>\<open>match\<close>: \<^verbatim>\<open>if (isAtEnd() or peek().type != type) return false; advance(); return true;\<close>\<close>

definition match :: "TokenType \<Rightarrow> Parser \<Rightarrow> error + (bool \<times> Parser)" where
  "match ty st =
     (if isAtEnd st then Inr (False, st)
      else case peek st of
        Inl e \<Rightarrow> Inl e
      | Inr tok \<Rightarrow>
          if type tok \<noteq> ty then Inr (False, st)
          else case advance st of
            Inl e \<Rightarrow> Inl e
          | Inr (_, st') \<Rightarrow> Inr (True, st'))"

definition parseSelector :: "Parser \<Rightarrow> error + (string \<times> Parser)" where
  "parseSelector st =
     (case match Identifier st of
        Inl e \<Rightarrow> Inl e
      | Inr (matched, st') \<Rightarrow>
          if matched then
            case at (tokens st') (size_sub (position st') 1) of
              Inl e \<Rightarrow> Inl e
            | Inr tok \<Rightarrow> Inr (value tok, st')
          else Inr ('''', st'))"

text \<open>\<^verbatim>\<open>parseValue\<close>: the four \<^verbatim>\<open>match\<close> calls are joined by short-circuiting \<^verbatim>\<open>or\<close>.\<close>

definition match_value :: "Parser \<Rightarrow> error + (bool \<times> Parser)" where
  "match_value st =
     (case match Number st of
        Inl e \<Rightarrow> Inl e
      | Inr (m1, st1) \<Rightarrow>
          if m1 then Inr (True, st1)
          else case match String st1 of
            Inl e \<Rightarrow> Inl e
          | Inr (m2, st2) \<Rightarrow>
              if m2 then Inr (True, st2)
              else case match Identifier st2 of
                Inl e \<Rightarrow> Inl e
              | Inr (m3, st3) \<Rightarrow>
                  if m3 then Inr (True, st3) else match HexColor st3)"

definition parseValue :: "Parser \<Rightarrow> error + (string \<times> Parser)" where
  "parseValue st =
     (case match_value st of
        Inl e \<Rightarrow> Inl e
      | Inr (matched, st') \<Rightarrow>
          if matched then
            case at (tokens st') (size_sub (position st') 1) of
              Inl e \<Rightarrow> Inl e
            | Inr tok \<Rightarrow> Inr (value tok, st')
          else Inr ('''', makeError ''Expected a value after '<property>:'.'' st'))"

text \<open>\<^verbatim>\<open>stylesheet[selector][property] = value\<close>: the outer \<^verbatim>\<open>operator[]\<close> yields the table
  of the selector, a new empty one when the selector is absent (\<open>table_of\<close>); the assignment
  inserts the property or overwrites it, and the table is the selector's entry afterwards.\<close>

definition table_of :: "Stylesheet \<Rightarrow> string \<Rightarrow> PropertyTable" where
  "table_of ss selector = (case ss selector of None \<Rightarrow> Map.empty | Some table \<Rightarrow> table)"

definition assign :: "string \<Rightarrow> string \<Rightarrow> string \<Rightarrow> Stylesheet \<Rightarrow> Stylesheet" where
  "assign selector property v ss = ss(selector \<mapsto> (table_of ss selector)(property \<mapsto> v))"

text \<open>A required token: \<^verbatim>\<open>if (!match(ty)) { makeError(msg); }\<close>\<close>

definition expect :: "TokenType \<Rightarrow> string \<Rightarrow> Parser \<Rightarrow> error + Parser" where
  "expect ty msg st =
     (case match ty st of
        Inl e \<Rightarrow> Inl e
      | Inr (matched, st') \<Rightarrow> Inr (if matched then st' else makeError msg st'))"

definition parseDeclaration :: "string \<Rightarrow> Parser \<Rightarrow> error + Parser" where
  "parseDeclaration selector st =
     (case expect Identifier ''Expected property name.'' st of
        Inl e \<Rightarrow> Inl e
      | Inr st1 \<Rightarrow>
     (case at (tokens st1) (size_sub (position st1) 1) of
        Inl e \<Rightarrow> Inl e
      | Inr tok \<Rightarrow>
     (case expect Colon ''Expected ':' after property name.'' st1 of
        Inl e \<Rightarrow> Inl e
      | Inr st2 \<Rightarrow>
     (case parseValue st2 of
        Inl e \<Rightarrow> Inl e
      | Inr (v, st3) \<Rightarrow>
     (case expect Semicolon ''Expected ';' after property value.'' st3 of
        Inl e \<Rightarrow> Inl e
      | Inr st4 \<Rightarrow>
          Inr (st4\<lparr>stylesheet := assign selector (value tok) v (stylesheet st4)\<rparr>))))))"

text \<open>
  The two loops of the parser have no measure that decreases: they are partial functions,
  where \<open>None\<close> is a run that never returns, \<open>Some (Inl e)\<close> a run ended by the exception \<open>e\<close>
  and \<open>Some (Inr st)\<close> a run that returns in state \<open>st\<close>.

  \<^verbatim>\<open>parseDeclarationBlock\<close>:
  \<^verbatim>\<open>while (peek().type != TokenType::BraceClose and !isAtEnd()) parseDeclaration(selector);\<close>\<close>

partial_function (option) parseDeclarationBlock :: "string \<Rightarrow> Parser \<Rightarrow> (error + Parser) option" where
  "parseDeclarationBlock selector st =
     (case peek st of
        Inl e \<Rightarrow> Some (Inl e)
      | Inr tok \<Rightarrow>
          if type tok \<noteq> BraceClose \<and> \<not> isAtEnd st then
            case parseDeclaration selector st of
              Inl e \<Rightarrow> Some (Inl e)
            | Inr st' \<Rightarrow> parseDeclarationBlock selector st'
          else Some (Inr st))"

definition parseRule :: "Parser \<Rightarrow> (error + Parser) option" where
  "parseRule st =
     (case parseSelector st of
        Inl e \<Rightarrow> Some (Inl e)
      | Inr (selector, st1) \<Rightarrow>
     (case expect BraceOpen ''Expected '{' after selector.'' st1 of
        Inl e \<Rightarrow> Some (Inl e)
      | Inr st2 \<Rightarrow>
     (case parseDeclarationBlock selector st2 of
        None \<Rightarrow> None
      | Some (Inl e) \<Rightarrow> Some (Inl e)
      | Some (Inr st3) \<Rightarrow>
     (case expect BraceClose ''Expected '}' after declaration block.'' st3 of
        Inl e \<Rightarrow> Some (Inl e)
      | Inr st4 \<Rightarrow> Some (Inr st4)))))"

text \<open>\<^verbatim>\<open>parse\<close>: \<^verbatim>\<open>while (!isAtEnd() && !hadError) parseRule();\<close>\<close>

partial_function (option) parse :: "Parser \<Rightarrow> (error + Parser) option" where
  "parse st =
     (if \<not> isAtEnd st \<and> \<not> hadError st then
        Option.bind (parseRule st)
          (\<lambda>r. case r of Inl e \<Rightarrow> Some (Inl e) | Inr st' \<Rightarrow> parse st')
      else Some (Inr st))"

text \<open>What \<^verbatim>\<open>main\<close> does with a source text: construct the parser, then call \<^verbatim>\<open>parse\<close>.\<close>

definition run :: "string \<Rightarrow> (error + Parser) option" where
  "run css = (case new_Parser css of Inl e \<Rightarrow> Some (Inl e) | Inr st \<Rightarrow> parse st)"

section \<open>Facts about the lexer\<close>

lemma take_length_takeWhile: "take (length (takeWhile p xs)) xs = takeWhile p xs"
  by (induction xs) auto

lemma size_sub_add: "size_sub (a + n) a = n"
  by (simp add: size_sub_def)

text \<open>\<^verbatim>\<open>lexHexColor\<close> on any cursor: the body is what follows the cursor up to the next
  semicolon or the end of the text.\<close>

lemma lexHexColor_eq:
  "lexHexColor src pos =
     (let body = takeWhile (\<lambda>c. c \<noteq> CHR '';'') (drop (pos + 1) src) in
      Inr (if length body = 6 then \<lparr>type = HexColor, value = body\<rparr>
           else \<lparr>type = Unknown, value = ''<InvalidColor>''\<rparr>,
           pos + 1 + length body))"
proof -
  define body where "body = takeWhile (\<lambda>c. c \<noteq> CHR '';'') (drop (pos + 1) src)"
  have stop: "advance_while (\<lambda>c. c \<noteq> CHR '';'') src (pos + 1) = pos + 1 + length body"
    by (simp only: advance_while_eq body_def)
  have sub: "substr src (pos + 1) (length body) = Inr body" if "length body = 6"
  proof -
    from that have "body \<noteq> []"
      by auto
    then have "pos + 1 \<le> length src"
      unfolding body_def by (cases "pos + 1 \<le> length src") simp_all
    moreover have "take (length body) (drop (pos + 1) src) = body"
      unfolding body_def by (rule take_length_takeWhile)
    ultimately show ?thesis
      by (simp add: substr_def)
  qed
  show ?thesis
  proof (cases "length body = 6")
    case True
    with sub [OF True] show ?thesis
      unfolding lexHexColor_def Let_def stop size_sub_add body_def [symmetric]
      by simp
  next
    case False
    then show ?thesis
      unfolding lexHexColor_def Let_def stop size_sub_add body_def [symmetric]
      by simp
  qed
qed

text \<open>
  \<^verbatim>\<open>lexString\<close> on a cursor inside the text: the body is what follows the opening quote up
  to the next quote or the end of the text. With a closing quote the token text is the
  body. Without one, \<^verbatim>\<open>position - start - 1\<close> still subtracts one for the closing quote
  that was not there, and the token text is the body less its last character.
\<close>

lemma lexString_eq:
  assumes "pos < length src"
  shows \<open>lexString src pos =
     (let body = takeWhile (\<lambda>c. c \<noteq> CHR ''"'') (drop (pos + 1) src) in
      if pos + 1 + length body < length src
      then Inr (\<lparr>type = String, value = body\<rparr>, pos + 2 + length body)
      else Inr (\<lparr>type = String, value = butlast body\<rparr>, pos + 1 + length body))\<close>
proof -
  define body where "body = takeWhile (\<lambda>c. c \<noteq> CHR 0x22) (drop (pos + 1) src)"
  have stop: "advance_while (\<lambda>c. c \<noteq> CHR 0x22) src (pos + 1) = pos + 1 + length body"
    by (simp only: advance_while_eq body_def)
  have prefix: "take (length body) (drop (pos + 1) src) = body"
    unfolding body_def by (rule take_length_takeWhile)
  have len: "length body \<le> length (drop (pos + 1) src)"
    unfolding body_def by (rule length_takeWhile_le)
  have start: "\<not> length src < pos + 1"
    using assms by simp
  show ?thesis
  proof (cases "pos + 1 + length body < length src")
    case True
    have "size_sub (size_sub (pos + 1 + length body + 1) (pos + 1)) 1 = length body"
      by (simp add: size_sub_def)
    with True start prefix show ?thesis
      unfolding lexString_def Let_def stop body_def [symmetric]
      by (simp add: substr_def)
  next
    case False
    with len assms have "length body = length (drop (pos + 1) src)"
      by simp
    with prefix have whole: "drop (pos + 1) src = body"
      by simp
    have "take (size_sub (size_sub (pos + 1 + length body) (pos + 1)) 1) body = butlast body"
      by (cases body) (simp_all add: size_sub_def butlast_conv_take)
    with False start whole show ?thesis
      unfolding lexString_def Let_def stop body_def [symmetric]
      by (simp add: substr_def)
  qed
qed

text \<open>The tokenizer never throws: every \<^verbatim>\<open>substr\<close> starts inside the text, and every
  branch of the main loop moves the cursor forward.\<close>

lemma lexIdentifier_succeeds: "pos < length src \<Longrightarrow> \<exists>r. lexIdentifier src pos = Inr r"
  by (simp add: lexIdentifier_def substr_def Let_def)

lemma lexNumber_succeeds: "pos < length src \<Longrightarrow> \<exists>r. lexNumber src pos = Inr r"
  by (simp add: lexNumber_def substr_def Let_def)

lemma lexString_succeeds: "pos < length src \<Longrightarrow> \<exists>r. lexString src pos = Inr r"
  by (simp add: lexString_def substr_def Let_def)

lemma lexHexColor_succeeds: "\<exists>r. lexHexColor src pos = Inr r"
  by (simp add: lexHexColor_eq Let_def)

lemma tokenize_loop_step:
  assumes "pos < length src"
  shows "\<exists>pos' toks'. pos < pos' \<and> tokenize_loop src pos toks = tokenize_loop src pos' toks'"
proof -
  let ?c = "src ! pos"
  note unfold = tokenize_loop.simps [of src pos toks]
  consider (space) "isspace ?c"
    | (ident) "\<not> isspace ?c" "isalpha ?c \<or> ?c = CHR ''-''"
    | (digit) "\<not> isspace ?c" "\<not> (isalpha ?c \<or> ?c = CHR ''-'')" "isdigit ?c"
    | (quote) "\<not> isspace ?c" "\<not> (isalpha ?c \<or> ?c = CHR ''-'')" "\<not> isdigit ?c" "?c = CHR 0x22"
    | (hash) "\<not> isspace ?c" "\<not> (isalpha ?c \<or> ?c = CHR ''-'')" "\<not> isdigit ?c" "?c = CHR ''#''"
    | (comment) "\<not> isspace ?c" "\<not> (isalpha ?c \<or> ?c = CHR ''-'')" "\<not> isdigit ?c"
        "?c = CHR ''/''" "Lexer_peek src pos 1 = CHR ''*''"
    | (single) "\<not> isspace ?c" "\<not> (isalpha ?c \<or> ?c = CHR ''-'')" "\<not> isdigit ?c"
        "?c \<noteq> CHR 0x22" "?c \<noteq> CHR ''#''" "\<not> (?c = CHR ''/'' \<and> Lexer_peek src pos 1 = CHR ''*'')"
    by blast
  then show ?thesis
  proof cases
    case space
    with assms advance_while_gt [of pos src isspace] unfold show ?thesis
      by auto
  next
    case ident
    from lexIdentifier_succeeds [OF assms] obtain tok pos'
      where lex: "lexIdentifier src pos = Inr (tok, pos')"
      by fastforce
    from lexIdentifier_gt [OF lex assms ident(2)] lex assms ident unfold show ?thesis
      by auto
  next
    case digit
    from lexNumber_succeeds [OF assms] obtain tok pos'
      where lex: "lexNumber src pos = Inr (tok, pos')"
      by fastforce
    from lexNumber_gt [OF lex assms digit(3)] lex assms digit unfold show ?thesis
      by auto
  next
    case quote
    from lexString_succeeds [OF assms] obtain tok pos'
      where lex: "lexString src pos = Inr (tok, pos')"
      by fastforce
    from lexString_gt [OF lex] lex assms quote unfold show ?thesis
      by auto
  next
    case hash
    from lexHexColor_succeeds obtain tok pos'
      where lex: "lexHexColor src pos = Inr (tok, pos')"
      by fastforce
    from lexHexColor_gt [OF lex] lex assms hash unfold show ?thesis
      by auto
  next
    case comment
    let ?p1 = "skip_comment src (pos + 2)"
    have "pos < (if ?p1 < length src then ?p1 + 2 else ?p1)"
      using skip_comment_ge [of "pos + 2" src] by simp
    moreover have "tokenize_loop src pos toks =
        tokenize_loop src (if ?p1 < length src then ?p1 + 2 else ?p1) toks"
      using assms comment unfold by (simp add: Let_def)
    ultimately show ?thesis
      by blast
  next
    case single
    have "\<exists>tok. tokenize_loop src pos toks = tokenize_loop src (pos + 1) (toks @ [tok])"
      using assms single unfold by auto
    then show ?thesis
      by (metis less_add_one)
  qed
qed

lemma tokenize_loop_succeeds: "\<exists>ts. tokenize_loop src pos toks = Inr ts"
proof (induction "length src - pos" arbitrary: pos toks rule: less_induct)
  case less
  show ?case
  proof (cases "pos < length src")
    case False
    then show ?thesis
      by (subst tokenize_loop.simps) simp
  next
    case True
    from tokenize_loop_step [OF True] obtain pos' toks'
      where step: "pos < pos'" "tokenize_loop src pos toks = tokenize_loop src pos' toks'"
      by blast
    from step(1) True have "length src - pos' < length src - pos"
      by simp
    from less [OF this] step(2) show ?thesis
      by simp
  qed
qed

lemma tokenize_succeeds: "\<exists>ts. tokenize css = Inr ts"
  by (simp add: tokenize_def tokenize_loop_succeeds)

section \<open>Facts about the parser\<close>

text \<open>
  \<open>current_is ty st\<close>: the cursor is inside the token vector, the token under it has type
  \<open>ty\<close>, and \<open>ty\<close> is not the end marker. \<open>current_is_value st\<close>: the token under the cursor
  has one of the four value types.
\<close>

definition current_is :: "TokenType \<Rightarrow> Parser \<Rightarrow> bool" where
  "current_is ty st =
     (position st < length (tokens st) \<and> type (tokens st ! position st) = ty \<and> ty \<noteq> EndOfFile)"

definition current_is_value :: "Parser \<Rightarrow> bool" where
  "current_is_value st =
     (current_is Number st \<or> current_is String st \<or> current_is Identifier st
      \<or> current_is HexColor st)"

lemma makeError_sel [simp]:
  "tokens (makeError msg st) = tokens st"
  "position (makeError msg st) = position st"
  "stylesheet (makeError msg st) = stylesheet st"
  "input (makeError msg st) = input st"
  "hadError (makeError msg st) = True"
  "lastError (makeError msg st) = \<lparr>errMsg = msg, errLine = input st\<rparr>"
  by (simp_all add: makeError_def)

lemma current_is_makeError [simp]: "current_is ty (makeError msg st) = current_is ty st"
  by (simp add: current_is_def)

lemma current_is_value_makeError [simp]:
  "current_is_value (makeError msg st) = current_is_value st"
  by (simp add: current_is_value_def)

lemma match_eq:
  "match ty st =
     Inr (if current_is ty st then (True, st\<lparr>position := position st + 1\<rparr>) else (False, st))"
  by (auto simp: match_def isAtEnd_def peek_def advance_def at_def size_sub_def current_is_def Let_def)

lemma expect_eq:
  "expect ty msg st =
     Inr (if current_is ty st then st\<lparr>position := position st + 1\<rparr> else makeError msg st)"
  by (simp add: expect_def match_eq)

lemma match_value_eq:
  "match_value st =
     Inr (if current_is_value st then (True, st\<lparr>position := position st + 1\<rparr>) else (False, st))"
  by (simp add: match_value_def match_eq current_is_value_def)

lemma parseValue_eq:
  "parseValue st =
     Inr (if current_is_value st
          then (value (tokens st ! position st), st\<lparr>position := position st + 1\<rparr>)
          else ('''', makeError ''Expected a value after '<property>:'.'' st))"
  by (auto simp: parseValue_def match_value_eq at_def size_sub_def current_is_value_def
      current_is_def)

subsection \<open>Unfolding the loops\<close>

lemma parseDeclarationBlock_continue:
  assumes "position st < length (tokens st)"
    and "type (tokens st ! position st) \<noteq> BraceClose"
    and "type (tokens st ! position st) \<noteq> EndOfFile"
  shows "parseDeclarationBlock selector st =
     (case parseDeclaration selector st of
        Inl e \<Rightarrow> Some (Inl e)
      | Inr st' \<Rightarrow> parseDeclarationBlock selector st')"
  using assms by (subst parseDeclarationBlock.simps) (simp add: peek_def at_def isAtEnd_def)

lemma parseDeclarationBlock_progress:
  assumes "current_is Identifier st \<or> current_is Colon st \<or> current_is_value st
    \<or> current_is Semicolon st"
  shows "parseDeclarationBlock selector st =
     (case parseDeclaration selector st of
        Inl e \<Rightarrow> Some (Inl e)
      | Inr st' \<Rightarrow> parseDeclarationBlock selector st')"
  using assms
  by (intro parseDeclarationBlock_continue) (auto simp: current_is_def current_is_value_def)

lemma parseDeclarationBlock_exit:
  assumes "position st < length (tokens st)"
    and "type (tokens st ! position st) = BraceClose \<or> type (tokens st ! position st) = EndOfFile"
  shows "parseDeclarationBlock selector st = Some (Inr st)"
  using assms by (subst parseDeclarationBlock.simps) (auto simp: peek_def at_def isAtEnd_def)

lemma parse_continue:
  assumes "\<not> isAtEnd st" and "\<not> hadError st"
  shows "parse st =
     Option.bind (parseRule st) (\<lambda>r. case r of Inl e \<Rightarrow> Some (Inl e) | Inr st' \<Rightarrow> parse st')"
  using assms by (subst parse.simps) simp

lemma parse_exit:
  assumes "isAtEnd st \<or> hadError st"
  shows "parse st = Some (Inr st)"
  using assms by (subst parse.simps) auto

subsection \<open>A declaration that consumes nothing\<close>

text \<open>
  No \<^verbatim>\<open>match\<close> of \<^verbatim>\<open>parseDeclaration\<close> accepts a \<open>BraceOpen\<close> or an \<open>Unknown\<close> token. With
  such a token under the cursor (and a token before it, for \<^verbatim>\<open>tokens.at(position - 1)\<close>)
  the declaration records its errors, stores an entry and returns with the cursor where it
  was.
\<close>

lemma parseDeclaration_no_progress:
  assumes "0 < position st" and "position st < length (tokens st)"
    and "type (tokens st ! position st) = BraceOpen \<or> type (tokens st ! position st) = Unknown"
  shows "\<exists>st'. parseDeclaration selector st = Inr st' \<and> tokens st' = tokens st
           \<and> position st' = position st"
proof -
  from assms have none: "\<not> current_is Identifier st" "\<not> current_is Colon st"
    "\<not> current_is_value st" "\<not> current_is Semicolon st"
    by (auto simp: current_is_value_def current_is_def)
  have prev: "at (tokens st) (size_sub (position st) 1) = Inr (tokens st ! (position st - 1))"
    using assms by (simp add: at_def size_sub_def)
  show ?thesis
    using none prev by (simp add: parseDeclaration_def expect_eq parseValue_eq)
qed

text \<open>So the loop of \<^verbatim>\<open>parseDeclarationBlock\<close>, whose condition looks at the same token
  again, never returns from such a state.\<close>

lemma parseDeclarationBlock_returns_progress:
  assumes "parseDeclarationBlock selector st = Some r"
  shows "\<not> (0 < position st \<and> position st < length (tokens st)
    \<and> (type (tokens st ! position st) = BraceOpen \<or> type (tokens st ! position st) = Unknown))"
proof (rule parseDeclarationBlock.raw_induct
    [where P = "\<lambda>_ st _. \<not> (0 < position st \<and> position st < length (tokens st)
      \<and> (type (tokens st ! position st) = BraceOpen \<or> type (tokens st ! position st) = Unknown))",
      OF _ assms])
  fix loop selector st r
  assume IH: "\<And>s b y. loop s b = Some y \<Longrightarrow>
      \<not> (0 < position b \<and> position b < length (tokens b)
        \<and> (type (tokens b ! position b) = BraceOpen \<or> type (tokens b ! position b) = Unknown))"
    and body: "(case peek st of
        Inl e \<Rightarrow> Some (Inl e)
      | Inr tok \<Rightarrow>
          if type tok \<noteq> BraceClose \<and> \<not> isAtEnd st
          then case parseDeclaration selector st of
                 Inl e \<Rightarrow> Some (Inl e)
               | Inr st' \<Rightarrow> loop selector st'
          else Some (Inr st)) = Some r"
  show "\<not> (0 < position st \<and> position st < length (tokens st)
    \<and> (type (tokens st ! position st) = BraceOpen \<or> type (tokens st ! position st) = Unknown))"
  proof
    assume stuck: "0 < position st \<and> position st < length (tokens st)
      \<and> (type (tokens st ! position st) = BraceOpen \<or> type (tokens st ! position st) = Unknown)"
    then obtain st' where st': "parseDeclaration selector st = Inr st'"
      "tokens st' = tokens st" "position st' = position st"
      using parseDeclaration_no_progress [of st selector] by blast
    from stuck st' body have "loop selector st' = Some r"
      by (auto simp: peek_def at_def isAtEnd_def)
    from IH [OF this] stuck st' show False
      by simp
  qed
qed

lemma parseDeclarationBlock_diverges:
  assumes "0 < position st" and "position st < length (tokens st)"
    and "type (tokens st ! position st) = BraceOpen \<or> type (tokens st ! position st) = Unknown"
  shows "parseDeclarationBlock selector st = None"
proof (cases "parseDeclarationBlock selector st")
  case (Some r)
  from parseDeclarationBlock_returns_progress [OF this] assms show ?thesis
    by simp
qed simp

subsection \<open>What a declaration stores, and when it throws\<close>

text \<open>
  With a token before the cursor, \<^verbatim>\<open>parseDeclaration\<close> returns and has stored an entry
  under the selector. Its key is the text of the token under the cursor when that is an
  identifier, and otherwise the text of the token before the cursor. At position 0 with no
  identifier under the cursor, \<^verbatim>\<open>tokens.at(position - 1)\<close> throws before anything is stored.
\<close>

lemma parseDeclaration_stores:
  assumes "0 < position st" and "position st \<le> length (tokens st)"
  shows "\<exists>st' v. parseDeclaration selector st = Inr st'
     \<and> stylesheet st' =
         assign selector
           (value (tokens st ! (if current_is Identifier st then position st else position st - 1)))
           v (stylesheet st)"
proof (cases "current_is Identifier st")
  case True
  then have "position st < length (tokens st)"
    by (simp add: current_is_def)
  with True show ?thesis
    by (auto simp: parseDeclaration_def expect_eq parseValue_eq at_def size_sub_def)
next
  case False
  have "at (tokens st) (size_sub (position st) 1) = Inr (tokens st ! (position st - 1))"
    using assms by (simp add: at_def size_sub_def)
  with False show ?thesis
    by (auto simp: parseDeclaration_def expect_eq parseValue_eq)
qed

lemma parseDeclaration_throws:
  assumes "position st = 0" and "\<not> current_is Identifier st"
    and "length (tokens st) \<le> SIZE_MAX"
  shows "parseDeclaration selector st = Inl OutOfRange"
  using assms
  by (simp add: parseDeclaration_def expect_eq at_def size_sub_def SIZE_MAX_def)

subsection \<open>A block of well-formed declarations\<close>

text \<open>
  \<open>declaration_tokens property v\<close> is the token sequence of one well-formed declaration
  \<^verbatim>\<open>property: v;\<close>, where \<open>v\<close> is a token of one of the four value types (\<open>is_value\<close>).
\<close>

definition declaration_tokens :: "string \<Rightarrow> Token \<Rightarrow> Token list" where
  "declaration_tokens property v =
     [\<lparr>type = Identifier, value = property\<rparr>, \<lparr>type = Colon, value = '':''\<rparr>, v,
      \<lparr>type = Semicolon, value = '';''\<rparr>]"

definition is_value :: "Token \<Rightarrow> bool" where
  "is_value tok =
     (type tok = Number \<or> type tok = String \<or> type tok = Identifier \<or> type tok = HexColor)"

lemma parseDeclaration_success:
  assumes "tokens st = pre @ declaration_tokens property v @ rest"
    and "position st = length pre" and "is_value v"
  shows "parseDeclaration selector st =
     Inr (st\<lparr>position := length pre + 4,
             stylesheet := assign selector property (value v) (stylesheet st)\<rparr>)"
proof -
  have toks: "tokens st ! length pre = \<lparr>type = Identifier, value = property\<rparr>"
    "tokens st ! Suc (length pre) = \<lparr>type = Colon, value = '':''\<rparr>"
    "tokens st ! Suc (Suc (length pre)) = v"
    "tokens st ! Suc (Suc (Suc (length pre))) = \<lparr>type = Semicolon, value = '';''\<rparr>"
    "length (tokens st) = length pre + 4 + length rest"
    by (simp_all add: assms(1) declaration_tokens_def nth_append)
  have name: "current_is Identifier st"
    by (simp add: current_is_def assms(2) toks)
  have colon: "current_is Colon (st\<lparr>position := Suc (length pre)\<rparr>)"
    by (simp add: current_is_def toks)
  have val: "current_is_value (st\<lparr>position := Suc (Suc (length pre))\<rparr>)"
    using assms(3) by (auto simp: current_is_value_def current_is_def toks is_value_def)
  have semi: "current_is Semicolon (st\<lparr>position := Suc (Suc (Suc (length pre)))\<rparr>)"
    by (simp add: current_is_def toks)
  show ?thesis
    using name colon val semi
    by (simp add: parseDeclaration_def expect_eq parseValue_eq assms(2) at_def size_sub_def toks)
qed

text \<open>The loop over a block of such declarations, closed by a brace: it returns, the
  cursor is on the brace, and the stylesheet is the fold of the assignments in order.\<close>

lemma parseDeclarationBlock_declarations:
  assumes "tokens st = pre @ concat (map (\<lambda>(p, v). declaration_tokens p v) ds) @ close # rest"
    and "position st = length pre" and "type close = BraceClose"
    and "\<forall>(p, v)\<in>set ds. is_value v"
  shows "parseDeclarationBlock selector st =
     Some (Inr (st\<lparr>position := length pre + 4 * length ds,
                   stylesheet := fold (\<lambda>(p, v). assign selector p (value v)) ds (stylesheet st)\<rparr>))"
  using assms
proof (induction ds arbitrary: st pre)
  case Nil
  then have "parseDeclarationBlock selector st = Some (Inr st)"
    by (intro parseDeclarationBlock_exit) (simp_all add: nth_append)
  with Nil show ?case
    by simp
next
  case (Cons d ds)
  obtain p v where d: "d = (p, v)"
    by (cases d)
  let ?st1 = "st\<lparr>position := length pre + 4,
    stylesheet := assign selector p (value v) (stylesheet st)\<rparr>"
  from Cons.prems d have toks: "tokens st = pre @ declaration_tokens p v
    @ (concat (map (\<lambda>(p, v). declaration_tokens p v) ds) @ close # rest)"
    by simp
  from Cons.prems d have v: "is_value v"
    by simp
  have step: "parseDeclaration selector st = Inr ?st1"
    using toks Cons.prems(2) v by (rule parseDeclaration_success)
  have "current_is Identifier st"
    using toks Cons.prems(2) by (simp add: current_is_def declaration_tokens_def nth_append)
  then have "parseDeclarationBlock selector st = parseDeclarationBlock selector ?st1"
    by (simp add: parseDeclarationBlock_progress step)
  also have "\<dots> = Some (Inr (?st1\<lparr>position := length (pre @ declaration_tokens p v) + 4 * length ds,
      stylesheet := fold (\<lambda>(p, v). assign selector p (value v)) ds (stylesheet ?st1)\<rparr>))"
  proof (rule Cons.IH)
    show "tokens ?st1 = (pre @ declaration_tokens p v)
      @ concat (map (\<lambda>(p, v). declaration_tokens p v) ds) @ close # rest"
      using toks by simp
    show "position ?st1 = length (pre @ declaration_tokens p v)"
      by (simp add: declaration_tokens_def)
    show "type close = BraceClose"
      by (rule Cons.prems(3))
    show "\<forall>(p, v)\<in>set ds. is_value v"
      using Cons.prems(4) by simp
  qed
  finally show ?case
    by (simp add: d declaration_tokens_def)
qed

text \<open>The assignments of one block, folded: the selector's table is the table it had (or
  the empty one) overridden by the declarations, a later declaration of a property
  overriding an earlier one.\<close>

lemma table_of_assign:
  "table_of (assign selector property v ss) selector = (table_of ss selector)(property \<mapsto> v)"
  by (simp add: assign_def table_of_def)

lemma assign_overwritten:
  "(assign selector property v ss)(selector \<mapsto> table) = ss(selector \<mapsto> table)"
  by (simp add: assign_def)

lemma fold_assign:
  "ds \<noteq> [] \<Longrightarrow> fold (\<lambda>(p, v). assign selector p (value v)) ds ss =
     ss(selector \<mapsto> table_of ss selector ++ map_of (rev (map (\<lambda>(p, v). (p, value v)) ds)))"
proof (induction ds arbitrary: ss)
  case Nil
  then show ?case by simp
next
  case (Cons d ds)
  obtain p v where d: "d = (p, v)"
    by (cases d)
  let ?later = "map_of (rev (map (\<lambda>(p, v). (p, value v)) ds))"
  have tables: "(table_of ss selector)(p \<mapsto> value v) ++ ?later =
      table_of ss selector ++ map_of (rev (map (\<lambda>(p, v). (p, value v)) (d # ds)))"
    by (auto simp: d fun_eq_iff map_add_def split: option.splits)
  have "fold (\<lambda>(p, v). assign selector p (value v)) (d # ds) ss =
      fold (\<lambda>(p, v). assign selector p (value v)) ds (assign selector p (value v) ss)"
    by (simp add: d)
  also have "\<dots> = ss(selector \<mapsto> (table_of ss selector)(p \<mapsto> value v) ++ ?later)"
  proof (cases "ds = []")
    case True
    then show ?thesis
      by (simp add: assign_def)
  next
    case False
    show ?thesis
      unfolding Cons.IH [OF False] table_of_assign assign_overwritten ..
  qed
  finally show ?case
    unfolding tables .
qed

subsection \<open>Running the model on a source text\<close>

lemmas lex_eval =
  tokenize_def tokenize_loop.simps advance_while.simps skip_comment.simps
  isspace_def isalpha_def isdigit_def isalnum_def Lexer_peek_def
  lexIdentifier_def lexNumber_def lexString_def lexHexColor_def substr_def size_sub_def

lemmas parse_eval =
  parse_continue parse_exit parseRule_def parseSelector_def match_eq expect_eq parseValue_eq
  parseDeclarationBlock_progress parseDeclarationBlock_exit parseDeclarationBlock_diverges
  parseDeclaration_def current_is_def current_is_value_def isAtEnd_def at_def assign_def
  table_of_def

text \<open>Two source texts used below, with what the parser makes of them up to the point
  of interest.\<close>

lemma error_then_more_rules:
  "\<exists>st st'. new_Parser ''a { x 1; } b { y: 2; }'' = Inr st
     \<and> \<not> isAtEnd st \<and> \<not> hadError st
     \<and> parseRule st = Some (Inr st') \<and> hadError st'
     \<and> current_is Identifier st' \<and> value (tokens st' ! position st') = ''b''
     \<and> stylesheet st' = [''a'' \<mapsto> [''x'' \<mapsto> ''1'']]"
  by (simp add: new_Parser_def lex_eval parse_eval)

lemma redeclared_property:
  "\<exists>st. new_Parser ''a { x: 1; y: 2; x: 3; }'' = Inr st
     \<and> tokens st = [\<lparr>type = Identifier, value = ''a''\<rparr>, \<lparr>type = BraceOpen, value = ''{''\<rparr>]
         @ concat (map (\<lambda>(p, v). declaration_tokens p v)
             [(''x'', \<lparr>type = Number, value = ''1''\<rparr>), (''y'', \<lparr>type = Number, value = ''2''\<rparr>),
              (''x'', \<lparr>type = Number, value = ''3''\<rparr>)])
         @ \<lparr>type = BraceClose, value = ''}''\<rparr> # [\<lparr>type = EndOfFile, value = ''''\<rparr>]"
  by (simp add: new_Parser_def lex_eval declaration_tokens_def)

section \<open>The claims\<close>

text \<open>
  \<^bold>\<open>C1\<close>. Claimed: for every input text \<^verbatim>\<open>parse()\<close> terminates. The code does not: on the
  text \<^verbatim>\<open>a { {\<close> the selector and the first brace are consumed, the declaration-block loop
  then sees a \<open>BraceOpen\<close> token that no \<^verbatim>\<open>match\<close> of \<^verbatim>\<open>parseDeclaration\<close> consumes, and
  the loop runs forever. In the model the run has no result.
\<close>

theorem parse_diverges_on_second_brace: "run ''a { {'' = None"
  by (simp add: run_def new_Parser_def lex_eval parse_eval)

text \<open>
  \<^bold>\<open>C2\<close>. Claimed: for every input text, constructing a parser and calling \<^verbatim>\<open>parse()\<close> raises
  no exception. The code does: on the text \<^verbatim>\<open>:\<close> the first declaration is parsed at
  position 0, its property-name match fails, and \<^verbatim>\<open>tokens.at(position - 1)\<close> is
  \<^verbatim>\<open>tokens.at(SIZE_MAX)\<close>, which throws \<^verbatim>\<open>std::out_of_range\<close> inside a \<^verbatim>\<open>noexcept\<close>
  function.
\<close>

theorem parse_throws_at_position_0: "run '':'' = Some (Inl OutOfRange)"
  by (simp add: run_def new_Parser_def lex_eval parse_eval)

text \<open>
  \<^bold>\<open>C3\<close>. Claimed: parsing \<^verbatim>\<open>a { c: #fff; }\<close> completes with the error flag set and the last
  message "Expected a value after '<property>:'.". The code never completes on this text:
  the \<open>Unknown\<close> token of the malformed colour is never consumed, so the declaration-block
  loop runs forever. The first declaration alone already ends with another message, since
  the semicolon check that follows the value fails on the same token.
\<close>

theorem parse_invalid_hex_never_returns:
  "run ''a { c: #fff; }'' = None
   \<and> (\<exists>st st'. new_Parser ''a { c: #fff; }'' = Inr st
        \<and> parseDeclaration ''a'' (st\<lparr>position := 2\<rparr>) = Inr st'
        \<and> type (tokens st' ! position st') = Unknown
        \<and> errMsg (lastError st') = ''Expected ';' after property value.'')"
  by (simp add: run_def new_Parser_def lex_eval parse_eval)

text \<open>
  \<^bold>\<open>C4\<close>. Wherever the tokenizer meets \<^verbatim>\<open>#\<close>, the candidate body is every character after it
  up to the next \<^verbatim>\<open>;\<close> or the end of the text. The token is a \<open>HexColor\<close> holding the body
  when the body has exactly 6 characters (of any kind), and otherwise an \<open>Unknown\<close> holding
  \<^verbatim>\<open><InvalidColor>\<close>; the tokenizer appends it and goes on after the body.
\<close>

theorem hex_color_token:
  assumes "pos < length src" and "src ! pos = CHR ''#''"
  shows "let body = takeWhile (\<lambda>c. c \<noteq> CHR '';'') (drop (pos + 1) src);
             tok = (if length body = 6 then \<lparr>type = HexColor, value = body\<rparr>
                    else \<lparr>type = Unknown, value = ''<InvalidColor>''\<rparr>)
         in lexHexColor src pos = Inr (tok, pos + 1 + length body)
            \<and> tokenize_loop src pos toks =
                tokenize_loop src (pos + 1 + length body) (toks @ [tok])"
proof -
  have "tokenize_loop src pos toks =
      (case lexHexColor src pos of
         Inl e \<Rightarrow> Inl e
       | Inr (tok, pos') \<Rightarrow> tokenize_loop src pos' (toks @ [tok]))"
    using assms
    by (subst tokenize_loop.simps) (simp add: isspace_def isalpha_def isdigit_def)
  then show ?thesis
    by (simp add: lexHexColor_eq Let_def)
qed

theorem hex_color_token_witness:
  "lexHexColor ''c:#08090E;'' 2 = Inr (\<lparr>type = HexColor, value = ''08090E''\<rparr>, 9)
   \<and> tokenize_loop ''c:#08090E;'' 2 [] =
       tokenize_loop ''c:#08090E;'' 9 [\<lparr>type = HexColor, value = ''08090E''\<rparr>]
   \<and> lexHexColor ''#08090E0 }'' 0 = Inr (\<lparr>type = Unknown, value = ''<InvalidColor>''\<rparr>, 10)"
  using hex_color_token [of 2 "''c:#08090E;''" "[]"] hex_color_token [of 0 "''#08090E0 }''" "[]"]
  by (simp add: Let_def)

text \<open>
  \<^bold>\<open>C5\<close>. Claimed: a string with no closing quote yields a \<open>String\<close> token whose text is
  every character after the opening quote. The code drops the last of them: on the text
  \<^verbatim>\<open>"abc\<close> the token text is \<open>ab\<close>, since the length \<^verbatim>\<open>position - start - 1\<close> given to
  \<^verbatim>\<open>substr\<close> subtracts one for a closing quote that is not there. (With a closing quote
  the text is what stands between the quotes.)
\<close>

theorem unterminated_string_loses_last_character:
  \<open>lexString ''"abc'' 0 = Inr (\<lparr>type = String, value = ''ab''\<rparr>, 4)
   \<and> tokenize ''"abc'' = Inr [\<lparr>type = String, value = ''ab''\<rparr>, \<lparr>type = EndOfFile, value = ''''\<rparr>]\<close>
  by (simp add: lex_eval)

text \<open>
  \<^bold>\<open>C6\<close>. Parsing the truncated text \<^verbatim>\<open>a { x: 1;\<close> returns with the error flag set, the last
  message "Expected '}' after declaration block.", and the stylesheet holding selector
  \<open>a\<close> with property \<open>x\<close> mapped to \<open>1\<close> (and nothing else).
\<close>

theorem parse_truncated_rule:
  "\<exists>st. run ''a { x: 1;'' = Some (Inr st) \<and> hadError st
     \<and> errMsg (lastError st) = ''Expected '}' after declaration block.''
     \<and> stylesheet st = [''a'' \<mapsto> [''x'' \<mapsto> ''1'']]"
  by (simp add: run_def new_Parser_def lex_eval parse_eval)

text \<open>
  \<^bold>\<open>C7\<close>. When the rule that the loop of \<^verbatim>\<open>parse\<close> runs returns with the error flag set,
  \<^verbatim>\<open>parse\<close> returns at once with the state that rule left: no later rule is started, so
  nothing more is added to the stylesheet or changed in it, whatever tokens remain.
\<close>

theorem parse_stops_after_error:
  assumes "\<not> isAtEnd st" and "\<not> hadError st"
    and "parseRule st = Some (Inr st')" and "hadError st'"
  shows "parse st = Some (Inr st')"
proof -
  have "parse st = parse st'"
    using assms(1-3) by (simp add: parse_continue)
  also have "\<dots> = Some (Inr st')"
    using assms(4) by (simp add: parse_exit)
  finally show ?thesis .
qed

text \<open>On \<^verbatim>\<open>a { x 1; } b { y: 2; }\<close> the first rule sets the flag (the colon is missing) and
  returns with the cursor on the well-formed rule \<open>b\<close>, which is never parsed.\<close>

theorem parse_stops_after_error_witness:
  "\<exists>st st'. new_Parser ''a { x 1; } b { y: 2; }'' = Inr st
     \<and> parseRule st = Some (Inr st') \<and> hadError st'
     \<and> current_is Identifier st' \<and> value (tokens st' ! position st') = ''b''
     \<and> parse st = Some (Inr st')
     \<and> stylesheet st' = [''a'' \<mapsto> [''x'' \<mapsto> ''1'']]"
proof -
  from error_then_more_rules obtain st st' where
    a: "new_Parser ''a { x 1; } b { y: 2; }'' = Inr st"
    and b: "\<not> isAtEnd st" "\<not> hadError st" "parseRule st = Some (Inr st')" "hadError st'"
    and c: "current_is Identifier st'" "value (tokens st' ! position st') = ''b''"
      "stylesheet st' = [''a'' \<mapsto> [''x'' \<mapsto> ''1'']]"
    by blast
  from parse_stops_after_error [OF b] have "parse st = Some (Inr st')" .
  with a b c show ?thesis
    by blast
qed

text \<open>
  \<^bold>\<open>C8\<close>. For every token vector and every position, \<^verbatim>\<open>match\<close> throws nothing; it returns
  true and moves the cursor by exactly one token when the token under the cursor has the
  expected type and is not the end marker, and otherwise returns false and leaves the
  whole parser state, the cursor included, as it was.
\<close>

theorem match_consumes_one_or_none:
  "match ty st =
     Inr (if position st < length (tokens st) \<and> type (tokens st ! position st) = ty
             \<and> type (tokens st ! position st) \<noteq> EndOfFile
          then (True, st\<lparr>position := position st + 1\<rparr>)
          else (False, st))"
  by (auto simp: match_eq current_is_def)

text \<open>
  \<^bold>\<open>C9\<close>. Storing is an upsert. Let the cursor stand before a non-empty sequence \<open>ds\<close> of
  well-formed declarations closed by a brace. Then the declaration-block loop returns with
  no new error, and the stylesheet differs from the one before in the entry of the
  selector only: that entry is the table the selector had (the empty table when it had
  none) overridden by the declarations, where of two declarations of one property the
  later wins (\<open>map_of\<close> takes the first pair for a key, here of the reversed sequence).
  Every other selector keeps its entry, and the selector has this one entry.
\<close>

theorem declarations_upsert:
  assumes "tokens st = pre @ concat (map (\<lambda>(p, v). declaration_tokens p v) ds) @ close # rest"
    and "position st = length pre" and "type close = BraceClose"
    and "\<forall>(p, v)\<in>set ds. is_value v" and "ds \<noteq> []"
  shows "\<exists>st'. parseDeclarationBlock selector st = Some (Inr st')
     \<and> position st' = length pre + 4 * length ds
     \<and> hadError st' = hadError st
     \<and> stylesheet st' = (stylesheet st)(selector \<mapsto>
          table_of (stylesheet st) selector ++ map_of (rev (map (\<lambda>(p, v). (p, value v)) ds)))"
  using parseDeclarationBlock_declarations [OF assms(1-4), of selector] fold_assign [OF assms(5)]
  by simp

text \<open>The block of \<^verbatim>\<open>a { x: 1; y: 2; x: 3; }\<close>, parsed when selector \<open>a\<close> already has
  \<open>z = 9\<close> and \<open>x = 0\<close>: \<open>z\<close> is kept, \<open>x\<close> ends as \<open>3\<close>, \<open>y\<close> is added.\<close>

theorem declarations_upsert_witness:
  "\<exists>st st'. new_Parser ''a { x: 1; y: 2; x: 3; }'' = Inr st
     \<and> parseDeclarationBlock ''a''
          (st\<lparr>position := 2, stylesheet := [''a'' \<mapsto> [''z'' \<mapsto> ''9'', ''x'' \<mapsto> ''0'']]\<rparr>)
         = Some (Inr st')
     \<and> position st' = 14
     \<and> stylesheet st' = [''a'' \<mapsto> [''z'' \<mapsto> ''9'', ''x'' \<mapsto> ''3'', ''y'' \<mapsto> ''2'']]"
proof -
  let ?ds = "[(''x'', \<lparr>type = Number, value = ''1''\<rparr>), (''y'', \<lparr>type = Number, value = ''2''\<rparr>),
    (''x'', \<lparr>type = Number, value = ''3''\<rparr>)]"
  let ?pre = "[\<lparr>type = Identifier, value = ''a''\<rparr>, \<lparr>type = BraceOpen, value = ''{''\<rparr>]"
  from redeclared_property obtain st
    where st: "new_Parser ''a { x: 1; y: 2; x: 3; }'' = Inr st"
    and toks: "tokens st = ?pre @ concat (map (\<lambda>(p, v). declaration_tokens p v) ?ds)
      @ \<lparr>type = BraceClose, value = ''}''\<rparr> # [\<lparr>type = EndOfFile, value = ''''\<rparr>]"
    by blast
  let ?st = "st\<lparr>position := 2, stylesheet := [''a'' \<mapsto> [''z'' \<mapsto> ''9'', ''x'' \<mapsto> ''0'']]\<rparr>"
  have "\<exists>st'. parseDeclarationBlock ''a'' ?st = Some (Inr st')
     \<and> position st' = length ?pre + 4 * length ?ds
     \<and> hadError st' = hadError ?st
     \<and> stylesheet st' = (stylesheet ?st)(''a'' \<mapsto>
          table_of (stylesheet ?st) ''a'' ++ map_of (rev (map (\<lambda>(p, v). (p, value v)) ?ds)))"
  proof (rule declarations_upsert)
    show "tokens ?st = ?pre @ concat (map (\<lambda>(p, v). declaration_tokens p v) ?ds)
      @ \<lparr>type = BraceClose, value = ''}''\<rparr> # [\<lparr>type = EndOfFile, value = ''''\<rparr>]"
      using toks by simp
  qed (simp_all add: is_value_def)
  then obtain st' where "parseDeclarationBlock ''a'' ?st = Some (Inr st')"
    "position st' = 14"
    "stylesheet st' = [''a'' \<mapsto> [''z'' \<mapsto> ''9'', ''x'' \<mapsto> ''3'', ''y'' \<mapsto> ''2'']]"
    by (auto simp: table_of_def fun_eq_iff map_add_def)
  with st show ?thesis
    by blast
qed

text \<open>
  \<^bold>\<open>C10\<close>. Claimed: parsing a declaration always inserts an entry into the stylesheet, also
  when required-token checks fail. The code does so only with a token before the cursor
  or an identifier under it. On the text \<^verbatim>\<open>:\<close> the declaration is parsed at position 0
  (after the missing \<^verbatim>\<open>{\<close> is reported), the property-name match fails, and
  \<^verbatim>\<open>tokens.at(position - 1)\<close> throws before the store is reached: no entry is inserted.
\<close>

theorem declaration_at_position_0_stores_nothing:
  "\<exists>st. new_Parser '':'' = Inr st
     \<and> parseDeclaration '''' (makeError ''Expected '{' after selector.'' st) = Inl OutOfRange"
  by (simp add: new_Parser_def lex_eval parse_eval)

end
